theory Spec2Isabelle
  imports Main "HOL-Library.Word" "HOL-Library.Multiset" "HOL-Library.List_Lexorder"
begin

unbundle bit_operations_syntax

section \<open>Python values used by git_handler.py\<close>

text \<open>
  A Python \<^verbatim>\<open>bytes\<close> value is a list of 8-bit words; a Python \<^verbatim>\<open>str\<close> is a list of
  Unicode code points, compared lexicographically by code point as Python compares
  strings. Integers are unbounded. Every exception of class \<^verbatim>\<open>Exception\<close> that the
  modelled code can raise is a value of \<open>exn\<close>.
\<close>

type_synonym byte = "8 word"
type_synonym bytes = "byte list"
type_synonym pystr = "nat list"

datatype exn =
    ValueError
  | UnicodeEncodeError
  | UnicodeDecodeError
  | StructError
  | OSError

definition ascii :: "string \<Rightarrow> bytes" where
  "ascii s = map (\<lambda>c. of_nat (of_char c)) s"

definition ustr :: "string \<Rightarrow> pystr" where
  "ustr s = map of_char s"

text \<open>Slicing \<^verbatim>\<open>xs[a:b]\<close>: negative indices count from the end, both are clamped.\<close>

definition clamp_index :: "nat \<Rightarrow> int \<Rightarrow> nat" where
  "clamp_index n i =
     (if i < 0 then (if i + int n < 0 then 0 else nat (i + int n))
      else if int n < i then n else nat i)"

definition py_slice :: "'a list \<Rightarrow> int \<Rightarrow> int \<Rightarrow> 'a list" where
  "py_slice xs a b =
     (let lo = clamp_index (length xs) a; hi = clamp_index (length xs) b
      in take (hi - lo) (drop lo xs))"

text \<open>The format specification \<^verbatim>\<open>04x\<close> of a non-negative integer.\<close>

definition hexdigit :: "nat \<Rightarrow> byte" where
  "hexdigit d = (if d < 10 then of_nat (48 + d) else of_nat (87 + d))"

fun hex_digits :: "nat \<Rightarrow> bytes" where
  "hex_digits n =
     (if n < 16 then [hexdigit n] else hex_digits (n div 16) @ [hexdigit (n mod 16)])"

declare hex_digits.simps [simp del]

definition fmt_04x :: "nat \<Rightarrow> bytes" where
  "fmt_04x n = (let ds = hex_digits n in replicate (4 - length ds) 48 @ ds)"

section \<open>Side-band framing\<close>

text \<open>
  \<^verbatim>\<open>format_side_band\<close>: the loop over \<^verbatim>\<open>range(0, len(data), chunk_size)\<close> carries the
  index and the \<^verbatim>\<open>bytearray\<close> built so far; \<^verbatim>\<open>result.append(band)\<close> raises ValueError
  when \<^verbatim>\<open>band\<close> is not in \<^verbatim>\<open>range(256)\<close>.
\<close>

definition chunk_size :: nat where
  "chunk_size = 65519"

function side_band_loop :: "bytes \<Rightarrow> int \<Rightarrow> nat \<Rightarrow> bytes \<Rightarrow> exn + bytes" where
  "side_band_loop data band i result =
     (if i < length data then
        (let chunk = py_slice data (int i) (int i + int chunk_size);
             len = length chunk + 5;
             result1 = result @ fmt_04x len
         in if 0 \<le> band \<and> band < 256
            then side_band_loop data band (i + chunk_size) (result1 @ [of_int band] @ chunk)
            else Inl ValueError)
      else Inr result)"
  by pat_completeness auto
termination
  by (relation "measure (\<lambda>(data, band, i, result). length data - i)")
     (auto simp: chunk_size_def)

declare side_band_loop.simps [simp del]

definition format_side_band :: "bytes \<Rightarrow> int \<Rightarrow> exn + bytes" where
  "format_side_band data band =
     (case side_band_loop data band 0 [] of
        Inl e \<Rightarrow> Inl e
      | Inr result \<Rightarrow> Inr (result @ ascii ''0000''))"

text \<open>\<^verbatim>\<open>format_pack_response\<close> calls \<^verbatim>\<open>format_side_band\<close> with the default band 1.\<close>

definition format_pack_response :: "bytes \<Rightarrow> exn + bytes" where
  "format_pack_response pack_data =
     (let nak = ascii ''NAK\<newline>'';
          response = fmt_04x (length nak + 4) @ nak
      in case format_side_band pack_data 1 of
           Inl e \<Rightarrow> Inl e
         | Inr sb \<Rightarrow> Inr (response @ sb))"

section \<open>The library functions the handler imports\<close>

text \<open>
  \<^verbatim>\<open>hashlib.sha1\<close> and \<^verbatim>\<open>zlib.compress\<close> are not part of the repository: the model takes
  them as parameters. A SHA-1 digest is a 160-bit word, so that \<^verbatim>\<open>digest()\<close> has 20
  bytes and \<^verbatim>\<open>hexdigest()\<close> 40 characters whatever the hash function is.
\<close>

record lib =
  sha1 :: "bytes \<Rightarrow> 160 word"
  zlib_compress :: "bytes \<Rightarrow> bytes"

definition digest_bytes :: "160 word \<Rightarrow> bytes" where
  "digest_bytes w = map (\<lambda>i. ucast (drop_bit (8 * (19 - i)) w)) [0..<20]"

definition hexchar :: "nat \<Rightarrow> nat" where
  "hexchar d = (if d < 10 then 48 + d else 87 + d)"

definition hex_of_bytes :: "bytes \<Rightarrow> pystr" where
  "hex_of_bytes bs = concat (map (\<lambda>b. [hexchar (unat b div 16), hexchar (unat b mod 16)]) bs)"

definition hexdigest :: "160 word \<Rightarrow> pystr" where
  "hexdigest w = hex_of_bytes (digest_bytes w)"

text \<open>\<^verbatim>\<open>str.encode('utf-8')\<close>: a surrogate code point raises UnicodeEncodeError.\<close>

definition utf8_char :: "nat \<Rightarrow> exn + bytes" where
  "utf8_char c =
     (if c < 128 then Inr [of_nat c]
      else if c < 2048 then Inr [of_nat (192 + c div 64), of_nat (128 + c mod 64)]
      else if 55296 \<le> c \<and> c < 57344 then Inl UnicodeEncodeError
      else if c < 65536 then
        Inr [of_nat (224 + c div 4096), of_nat (128 + c div 64 mod 64), of_nat (128 + c mod 64)]
      else if c < 1114112 then
        Inr [of_nat (240 + c div 262144), of_nat (128 + c div 4096 mod 64),
             of_nat (128 + c div 64 mod 64), of_nat (128 + c mod 64)]
      else Inl UnicodeEncodeError)"

fun encode_utf8 :: "pystr \<Rightarrow> exn + bytes" where
  "encode_utf8 [] = Inr []"
| "encode_utf8 (c # cs) =
     (case utf8_char c of
        Inl e \<Rightarrow> Inl e
      | Inr b \<Rightarrow> (case encode_utf8 cs of Inl e \<Rightarrow> Inl e | Inr bs \<Rightarrow> Inr (b @ bs)))"

text \<open>\<^verbatim>\<open>bytes.decode('ascii')\<close>: a byte above 127 raises UnicodeDecodeError.\<close>

definition decode_ascii :: "bytes \<Rightarrow> exn + pystr" where
  "decode_ascii bs =
     (if list_all (\<lambda>b. b < 128) bs then Inr (map unat bs) else Inl UnicodeDecodeError)"

text \<open>
  \<^verbatim>\<open>bytes.fromhex\<close>: ASCII whitespace is skipped between pairs of hexadecimal digits
  (of either case); anything else raises ValueError.
\<close>

definition is_space :: "nat \<Rightarrow> bool" where
  "is_space c = (c = 32 \<or> (9 \<le> c \<and> c \<le> 13))"

definition hexval :: "nat \<Rightarrow> nat option" where
  "hexval c =
     (if 48 \<le> c \<and> c \<le> 57 then Some (c - 48)
      else if 97 \<le> c \<and> c \<le> 102 then Some (c - 87)
      else if 65 \<le> c \<and> c \<le> 70 then Some (c - 55)
      else None)"

fun fromhex :: "pystr \<Rightarrow> exn + bytes" where
  "fromhex [] = Inr []"
| "fromhex [c] = (if is_space c then Inr [] else Inl ValueError)"
| "fromhex (c # d # ds) =
     (if is_space c then fromhex (d # ds)
      else (case hexval c of
              None \<Rightarrow> Inl ValueError
            | Some hi \<Rightarrow>
               (case hexval d of
                  None \<Rightarrow> Inl ValueError
                | Some lo \<Rightarrow>
                   (case fromhex ds of
                      Inl e \<Rightarrow> Inl e
                    | Inr bs \<Rightarrow> Inr (of_nat (16 * hi + lo) # bs)))))"

text \<open>\<^verbatim>\<open>str(n).encode('utf-8')\<close> of a length: its decimal digits.\<close>

fun decimal :: "nat \<Rightarrow> bytes" where
  "decimal n =
     (if n < 10 then [of_nat (48 + n)] else decimal (n div 10) @ [of_nat (48 + n mod 10)])"

declare decimal.simps [simp del]

definition py_join :: "pystr \<Rightarrow> pystr list \<Rightarrow> pystr" where
  "py_join sep xs = (case xs of [] \<Rightarrow> [] | y # ys \<Rightarrow> y @ concat (map (\<lambda>z. sep @ z) ys))"

definition startswith :: "bytes \<Rightarrow> bytes \<Rightarrow> bool" where
  "startswith xs p = (take (length p) xs = p)"

text \<open>\<^verbatim>\<open>bytes.find\<close> of a single byte: the first index, or -1.\<close>

fun find_byte :: "bytes \<Rightarrow> byte \<Rightarrow> int" where
  "find_byte [] b = - 1"
| "find_byte (x # xs) b =
     (if x = b then 0 else (let r = find_byte xs b in if r = - 1 then - 1 else r + 1))"

section \<open>Object construction\<close>

definition create_blob :: "lib \<Rightarrow> pystr \<Rightarrow> exn + (pystr \<times> bytes)" where
  "create_blob L content =
     (case encode_utf8 content of
        Inl e \<Rightarrow> Inl e
      | Inr data \<Rightarrow>
         (let blob_store = ascii ''blob '' @ decimal (length data) @ [0] @ data;
              blob_hash = hexdigest (sha1 L blob_store)
          in Inr (blob_hash, blob_store)))"

text \<open>
  The loop of \<^verbatim>\<open>create_tree\<close> over the sorted objects, carrying the \<^verbatim>\<open>bytearray\<close>.
  Python's \<^verbatim>\<open>sorted\<close> is stable, as \<open>sort_key\<close> is.
\<close>

fun tree_loop :: "(pystr \<times> pystr \<times> bytes) list \<Rightarrow> bytes \<Rightarrow> exn + bytes" where
  "tree_loop [] tree_content = Inr tree_content"
| "tree_loop ((path, hash_value, blob) # rest) tree_content =
     (case encode_utf8 path of
        Inl e \<Rightarrow> Inl e
      | Inr p \<Rightarrow>
         (case fromhex hash_value of
            Inl e \<Rightarrow> Inl e
          | Inr h \<Rightarrow>
             tree_loop rest ((tree_content @ (ascii ''100644'' @ ascii '' '' @ p @ [0])) @ h)))"

definition create_tree :: "lib \<Rightarrow> (pystr \<times> pystr \<times> bytes) list \<Rightarrow> exn + (pystr \<times> bytes)" where
  "create_tree L objects =
     (let sorted_objects = sort_key fst objects
      in case tree_loop sorted_objects [] of
           Inl e \<Rightarrow> Inl e
         | Inr tree_data \<Rightarrow>
            (let tree_store = ascii ''tree '' @ decimal (length tree_data) @ [0] @ tree_data;
                 tree_hash = hexdigest (sha1 L tree_store)
             in Inr (tree_hash, tree_store)))"

definition create_commit :: "lib \<Rightarrow> pystr \<Rightarrow> exn + (pystr \<times> bytes)" where
  "create_commit L tree_hash =
     (let commit_content =
            [ustr ''tree '' @ tree_hash,
             ustr ''author CDK2Git <cdk2git@example.com> 1701926400 +0000'',
             ustr ''committer CDK2Git <cdk2git@example.com> 1701926400 +0000'',
             [],
             ustr ''Initial commit - CDKTF synthesis output'']
      in case encode_utf8 (py_join (ustr ''\<newline>'') commit_content) of
           Inl e \<Rightarrow> Inl e
         | Inr commit_data \<Rightarrow>
            (let commit_store =
                   ascii ''commit '' @ decimal (length commit_data) @ [0] @ commit_data;
                 commit_hash = hexdigest (sha1 L commit_store)
             in Inr (commit_hash, commit_store)))"

section \<open>Pack encoding\<close>

text \<open>\<^verbatim>\<open>struct.pack('>II', a, b)\<close> raises \<^verbatim>\<open>struct.error\<close> outside 32 bits.\<close>

definition be32 :: "nat \<Rightarrow> bytes" where
  "be32 n = [of_nat (n div 16777216), of_nat (n div 65536), of_nat (n div 256), of_nat n]"

definition struct_pack_II :: "nat \<Rightarrow> nat \<Rightarrow> exn + bytes" where
  "struct_pack_II a b =
     (if a < 4294967296 \<and> b < 4294967296 then Inr (be32 a @ be32 b) else Inl StructError)"

text \<open>
  The \<^verbatim>\<open>while size > 0\<close> loop of the object header (\<open>sz\<close> is \<^verbatim>\<open>size\<close>), with the pending byte \<open>c\<close>
  (always below 128) and the \<^verbatim>\<open>bytearray\<close>; the final \<^verbatim>\<open>data.append(c)\<close> is its exit.
\<close>

function header_loop :: "nat \<Rightarrow> nat \<Rightarrow> bytes \<Rightarrow> bytes" where
  "header_loop sz c data =
     (if sz > 0
      then header_loop (drop_bit 7 sz) (sz AND 127) (data @ [of_nat (128 OR c)])
      else data @ [of_nat c])"
  by pat_completeness auto
termination
  by (relation "measure (\<lambda>(sz, c, data). sz)") (auto simp: drop_bit_eq_div)

declare header_loop.simps [simp del]

definition object_type :: "bytes \<Rightarrow> nat" where
  "object_type content =
     (if startswith content (ascii ''commit '') then 1
      else if startswith content (ascii ''tree '') then 2
      else 3)"

definition object_payload :: "bytes \<Rightarrow> bytes" where
  "object_payload content =
     (let null_pos = find_byte content 0
      in if null_pos \<noteq> - 1
         then py_slice content (null_pos + 1) (int (length content))
         else content)"

fun packfile_loop :: "lib \<Rightarrow> (pystr \<times> bytes) list \<Rightarrow> bytes \<Rightarrow> bytes" where
  "packfile_loop L [] data = data"
| "packfile_loop L ((obj_hash, content) # rest) data =
     (let obj_type = object_type content;
          content1 = object_payload content;
          compressed = zlib_compress L content1;
          sz = length content1;
          c = push_bit 4 obj_type OR (sz AND 15);
          data1 = header_loop (drop_bit 4 sz) c data
      in packfile_loop L rest (data1 @ compressed))"

definition create_packfile :: "lib \<Rightarrow> (pystr \<times> bytes) list \<Rightarrow> exn + bytes" where
  "create_packfile L objects =
     (case struct_pack_II 2 (length objects) of
        Inl e \<Rightarrow> Inl e
      | Inr counts \<Rightarrow>
         (let header = ascii ''PACK'' @ counts;
              pack = header @ packfile_loop L objects [];
              sha1_hash = digest_bytes (sha1 L pack)
          in Inr (pack @ sha1_hash)))"

section \<open>Request parsing\<close>

text \<open>
  \<^verbatim>\<open>int(s, 16)\<close> on an ASCII string: surrounding ASCII whitespace is skipped, a sign
  and a \<^verbatim>\<open>0x\<close> prefix are accepted, single underscores may separate digits (and follow
  the prefix); anything else raises ValueError. A sign makes the result negative.
\<close>

definition scan_digits :: "pystr \<Rightarrow> pystr" where
  "scan_digits s = takeWhile (\<lambda>c. hexval c \<noteq> None \<or> c = 95) s"

fun valid_underscores :: "pystr \<Rightarrow> bool" where
  "valid_underscores [] = True"
| "valid_underscores [c] = (c \<noteq> 95)"
| "valid_underscores (c # d # ds) = (\<not> (c = 95 \<and> d = 95) \<and> valid_underscores (d # ds))"

definition py_int16 :: "pystr \<Rightarrow> exn + int" where
  "py_int16 s =
     (let s1 = dropWhile is_space s;
          neg = (s1 \<noteq> [] \<and> hd s1 = 45);
          s2 = (if s1 \<noteq> [] \<and> (hd s1 = 45 \<or> hd s1 = 43) then tl s1 else s1);
          s3 = (case s2 of
                  a # b # r \<Rightarrow>
                    if a = 48 \<and> (b = 120 \<or> b = 88)
                    then (case r of u # r' \<Rightarrow> if u = 95 then r' else r | [] \<Rightarrow> r)
                    else s2
                | _ \<Rightarrow> s2);
          body = scan_digits s3;
          rest = dropWhile is_space (drop (length body) s3);
          digits = filter (\<lambda>c. c \<noteq> 95) body;
          v = foldl (\<lambda>a c. 16 * a + int (the (hexval c))) 0 digits
      in if body = [] \<or> hd body = 95 \<or> \<not> valid_underscores body \<or> rest \<noteq> []
         then Inl ValueError
         else Inr (if neg then - v else v))"

text \<open>
  One pass through the body of the \<^verbatim>\<open>while\<close> loop of \<^verbatim>\<open>parse_request\<close>: \<open>Break\<close> when
  the \<^verbatim>\<open>try\<close> block raises, otherwise the next position and want-list. The position is
  an unbounded integer: a negative length field moves it backwards.
\<close>

datatype step = Break | Continue int "pystr list"

definition parse_step :: "bytes \<Rightarrow> int \<Rightarrow> pystr list \<Rightarrow> step" where
  "parse_step data pos wants =
     (case decode_ascii (py_slice data pos (pos + 4)) of
        Inl e \<Rightarrow> Break
      | Inr field \<Rightarrow>
         (case py_int16 field of
            Inl e \<Rightarrow> Break
          | Inr len \<Rightarrow>
             if len = 0 then Continue (pos + 4) wants
             else
               (let packet = py_slice data (pos + 4) (pos + len)
                in if startswith packet (ascii ''want '')
                   then (case decode_ascii (py_slice packet 5 45) of
                           Inl e \<Rightarrow> Break
                         | Inr want \<Rightarrow> Continue (pos + len) (wants @ [want]))
                   else Continue (pos + len) wants)))"

text \<open>The loop itself may run forever: \<open>None\<close> is "does not return".\<close>

partial_function (option) parse_loop :: "bytes \<Rightarrow> int \<Rightarrow> pystr list \<Rightarrow> pystr list option" where
  "parse_loop data pos wants =
     (if pos < int (length data) then
        (case parse_step data pos wants of
           Break \<Rightarrow> Some wants
         | Continue pos1 wants1 \<Rightarrow> parse_loop data pos1 wants1)
      else Some wants)"

declare parse_loop.simps [code]

definition parse_request :: "bytes \<Rightarrow> pystr list option" where
  "parse_request data = parse_loop data 0 []"

section \<open>The synthesis collaborator and the file system\<close>

text \<open>
  What lies outside the handler is a parameter of the model. The file system state is
  the list of scratch directories that exist; \<^verbatim>\<open>shutil.rmtree\<close> removes a directory and
  everything below it, or fails and is logged. A run of \<^verbatim>\<open>CDKTFHandler.synthesize\<close> on a
  given source text takes one of the paths through its body, chosen by what
  \<^verbatim>\<open>tempfile.mkdtemp\<close>, \<^verbatim>\<open>exec\<close> and the CDKTF library do.
\<close>

type_synonym path = "pystr list"

datatype synth_run =
    MkdtempRaises
  | ExecRaises
  | NoMyStack
  | SynthRaises bool
  | NoOutputDir
  | Synthesized

record world =
  main_py_exists :: bool
  main_py_read :: "exn + pystr"
  temp_dir :: path
  cdktf :: "pystr \<Rightarrow> synth_run"
  os_walk :: "path \<Rightarrow> (pystr \<times> (exn + pystr)) list"
  rmtree_fails :: bool

definition below :: "path \<Rightarrow> path \<Rightarrow> bool" where
  "below d p = (take (length d) p = d)"

definition rmtree :: "world \<Rightarrow> path \<Rightarrow> path list \<Rightarrow> path list" where
  "rmtree W d fs = (if rmtree_fails W then fs else filter (\<lambda>p. \<not> below d p) fs)"

definition cleanup :: "world \<Rightarrow> path option \<Rightarrow> path list \<Rightarrow> path list" where
  "cleanup W dir fs =
     (case dir of
        None \<Rightarrow> fs
      | Some d \<Rightarrow> if d \<in> set fs then rmtree W d fs else fs)"

text \<open>
  \<^verbatim>\<open>synthesize\<close>: only the \<^verbatim>\<open>except\<close> branch removes \<^verbatim>\<open>temp_dir\<close>; the two
  \<^verbatim>\<open>return None\<close> of the \<^verbatim>\<open>try\<close> block and the successful return leave it.
  \<open>SynthRaises made\<close>: the stack constructor or \<^verbatim>\<open>app.synth()\<close> raises, after the
  output directory was created (\<open>made\<close>) or before.
\<close>

definition synthesize :: "world \<Rightarrow> pystr \<Rightarrow> path list \<Rightarrow> path option \<times> path list" where
  "synthesize W cdktf_code fs =
     (let tmp = temp_dir W; synth_dir = tmp @ [ustr ''cdktf.out'']
      in case cdktf W cdktf_code of
           MkdtempRaises \<Rightarrow> (None, fs)
         | ExecRaises \<Rightarrow> (None, cleanup W (Some tmp) (tmp # fs))
         | NoMyStack \<Rightarrow> (None, tmp # fs)
         | SynthRaises made \<Rightarrow>
             (None, cleanup W (Some tmp) (if made then synth_dir # tmp # fs else tmp # fs))
         | NoOutputDir \<Rightarrow> (None, tmp # fs)
         | Synthesized \<Rightarrow> (Some synth_dir, synth_dir # tmp # fs))"

section \<open>The advertisement and fetch flows\<close>

text \<open>The walk over the synthesis output: each file is read and turned into a blob.\<close>

fun build_objects ::
  "lib \<Rightarrow> (pystr \<times> (exn + pystr)) list \<Rightarrow> (pystr \<times> pystr \<times> bytes) list
     \<Rightarrow> exn + (pystr \<times> pystr \<times> bytes) list" where
  "build_objects L [] objects = Inr objects"
| "build_objects L ((rel_path, file_read) # files) objects =
     (case file_read of
        Inl e \<Rightarrow> Inl e
      | Inr content \<Rightarrow>
         (case create_blob L content of
            Inl e \<Rightarrow> Inl e
          | Inr (hash_value, blob) \<Rightarrow>
             build_objects L files (objects @ [(rel_path, hash_value, blob)])))"

definition zero_hash :: pystr where
  "zero_hash = replicate 40 48"

text \<open>
  The \<^verbatim>\<open>try\<close> block of \<^verbatim>\<open>get_refs\<close> with its \<^verbatim>\<open>except\<close> clause: the commit identity, the
  value of \<^verbatim>\<open>synth_dir\<close> when the block is left, and the file system.
\<close>

definition refs_try :: "lib \<Rightarrow> world \<Rightarrow> path list \<Rightarrow> pystr \<times> path option \<times> path list" where
  "refs_try L W fs =
     (case main_py_read W of
        Inl e \<Rightarrow> (zero_hash, None, fs)
      | Inr cdktf_code \<Rightarrow>
         (case synthesize W cdktf_code fs of
            (None, fs1) \<Rightarrow> (zero_hash, None, fs1)
          | (Some synth_dir, fs1) \<Rightarrow>
             (case build_objects L (os_walk W synth_dir) [] of
                Inl e \<Rightarrow> (zero_hash, Some synth_dir, fs1)
              | Inr objects \<Rightarrow>
                 if objects \<noteq> [] then
                   (case create_tree L objects of
                      Inl e \<Rightarrow> (zero_hash, Some synth_dir, fs1)
                    | Inr (tree_hash, tree_store) \<Rightarrow>
                       (case create_commit L tree_hash of
                          Inl e \<Rightarrow> (zero_hash, Some synth_dir, fs1)
                        | Inr (commit_hash, commit_store) \<Rightarrow> (commit_hash, Some synth_dir, fs1)))
                 else (zero_hash, Some synth_dir, fs1))))"

definition fmt_04x_str :: "nat \<Rightarrow> pystr" where
  "fmt_04x_str n = map unat (fmt_04x n)"

definition capabilities :: pystr where
  "capabilities = ustr ''multi_ack thin-pack side-band side-band-64k ofs-delta shallow deepen-since deepen-not deepen-relative no-progress include-tag multi_ack_detailed symref=HEAD:refs/heads/main agent=git/2.43.0''"

definition refs_advertisement :: "pystr \<Rightarrow> exn + bytes" where
  "refs_advertisement commit_hash =
     (let service = ustr ''# service=git-upload-pack\<newline>'';
          first_pkt = fmt_04x_str (length service + 4) @ service;
          second_pkt = ustr ''0000'';
          head_line = commit_hash @ ustr '' HEAD'' @ [0] @ capabilities @ ustr ''\<newline>'';
          third_pkt = fmt_04x_str (length head_line + 4) @ head_line;
          main_line = commit_hash @ ustr '' refs/heads/main\<newline>'';
          fourth_pkt = fmt_04x_str (length main_line + 4) @ main_line;
          final_pkt = ustr ''0000''
      in encode_utf8 (first_pkt @ second_pkt @ third_pkt @ fourth_pkt @ final_pkt))"

definition get_refs :: "lib \<Rightarrow> world \<Rightarrow> path list \<Rightarrow> (exn + bytes) \<times> path list" where
  "get_refs L W fs =
     (case refs_try L W fs of
        (commit_hash, synth_dir, fs1) \<Rightarrow>
          (refs_advertisement commit_hash, cleanup W synth_dir fs1))"

text \<open>
  The \<^verbatim>\<open>try\<close> block of \<^verbatim>\<open>generate_pack\<close> with its \<^verbatim>\<open>except\<close> clause: the value returned
  (\<open>None\<close> is Python's \<^verbatim>\<open>None\<close>), \<^verbatim>\<open>synth_dir\<close> and the file system.
\<close>

definition pack_try ::
  "lib \<Rightarrow> world \<Rightarrow> path list \<Rightarrow> bytes option \<times> path option \<times> path list" where
  "pack_try L W fs =
     (if \<not> main_py_exists W then (None, None, fs)
      else case main_py_read W of
        Inl e \<Rightarrow> (None, None, fs)
      | Inr cdktf_code \<Rightarrow>
         (case synthesize W cdktf_code fs of
            (None, fs1) \<Rightarrow> (None, None, fs1)
          | (Some synth_dir, fs1) \<Rightarrow>
             (case build_objects L (os_walk W synth_dir) [] of
                Inl e \<Rightarrow> (None, Some synth_dir, fs1)
              | Inr objects \<Rightarrow>
                 if objects = [] then (None, Some synth_dir, fs1)
                 else
                   (case create_tree L objects of
                      Inl e \<Rightarrow> (None, Some synth_dir, fs1)
                    | Inr (tree_hash, tree_content) \<Rightarrow>
                       (case create_commit L tree_hash of
                          Inl e \<Rightarrow> (None, Some synth_dir, fs1)
                        | Inr (commit_hash, commit_content) \<Rightarrow>
                           (let pack_objects =
                                  map (\<lambda>(p, hash_value, blob). (hash_value, blob)) objects
                                    @ [(tree_hash, tree_content)]
                                    @ [(commit_hash, commit_content)];
                                sorted_objects = sort_key fst pack_objects
                            in case create_packfile L sorted_objects of
                                 Inl e \<Rightarrow> (None, Some synth_dir, fs1)
                               | Inr pack_data \<Rightarrow>
                                  (case format_pack_response pack_data of
                                     Inl e \<Rightarrow> (None, Some synth_dir, fs1)
                                   | Inr response \<Rightarrow>
                                      (Some response, Some synth_dir, fs1))))))))"

text \<open>
  \<^verbatim>\<open>generate_pack\<close>: the outer \<open>None\<close> is "does not return" (the request parser loops),
  the inner one is the value \<^verbatim>\<open>None\<close>.
\<close>

definition generate_pack ::
  "lib \<Rightarrow> world \<Rightarrow> path list \<Rightarrow> bytes \<Rightarrow> (bytes option \<times> path list) option" where
  "generate_pack L W fs request_data =
     (case parse_request request_data of
        None \<Rightarrow> None
      | Some wants \<Rightarrow>
         if wants = [] then Some (None, fs)
         else (case pack_try L W fs of
                 (response, synth_dir, fs1) \<Rightarrow> Some (response, cleanup W synth_dir fs1)))"

section \<open>The packet-line decoder of the specification\<close>

text \<open>
  The handler has no decoder for its own output. The inverse property of the side-band
  stream is stated against the decoder the specification describes: scan consecutive
  fields of four lowercase hexadecimal digits; \<^verbatim>\<open>0000\<close> is a flush packet; any other
  length \<open>n\<close> is followed by a body of \<open>n - 4\<close> bytes; an unusable length field ends
  the scan. A band-1 body is one band byte 1 followed by the chunk.
\<close>

datatype packet = Flush | Data bytes

definition lower_hexval :: "byte \<Rightarrow> nat option" where
  "lower_hexval b =
     (if 48 \<le> b \<and> b \<le> 57 then Some (unat b - 48)
      else if 97 \<le> b \<and> b \<le> 102 then Some (unat b - 87)
      else None)"

definition hex4_value :: "bytes \<Rightarrow> nat option" where
  "hex4_value bs =
     (case map lower_hexval bs of
        [Some a, Some b, Some c, Some d] \<Rightarrow> Some (4096 * a + 256 * b + 16 * c + d)
      | _ \<Rightarrow> None)"

lemma hex4_value_length: "hex4_value bs = Some n \<Longrightarrow> length bs = 4"
  by (auto simp: hex4_value_def split: list.splits option.splits)

function spec_pkt_decode :: "bytes \<Rightarrow> packet list" where
  "spec_pkt_decode bs =
     (case hex4_value (take 4 bs) of
        None \<Rightarrow> []
      | Some n \<Rightarrow>
         if n = 0 then Flush # spec_pkt_decode (drop 4 bs)
         else if n < 4 then []
         else Data (take (n - 4) (drop 4 bs)) # spec_pkt_decode (drop n bs))"
  by pat_completeness auto
termination
proof (relation "measure length", goal_cases)
  case 1
  show ?case by simp
next
  case (2 bs n)
  then have "length (take 4 bs) = 4" by (simp only: hex4_value_length)
  then show ?case by (auto simp: min_def split: if_splits)
next
  case (3 bs n)
  then have "length (take 4 bs) = 4" by (simp only: hex4_value_length)
  with 3 show ?case by (auto simp: min_def split: if_splits)
qed

declare spec_pkt_decode.simps [simp del]

definition on_band1 :: "packet \<Rightarrow> bool" where
  "on_band1 p = (case p of Flush \<Rightarrow> False | Data body \<Rightarrow> take 1 body = [1])"

definition band_body :: "packet \<Rightarrow> bytes" where
  "band_body p = (case p of Flush \<Rightarrow> [] | Data body \<Rightarrow> drop 1 body)"

text \<open>The chunks and frames of \<^verbatim>\<open>format_side_band\<close>, for the proofs.\<close>

function split_chunks :: "bytes \<Rightarrow> bytes list" where
  "split_chunks xs =
     (if xs = [] then [] else take chunk_size xs # split_chunks (drop chunk_size xs))"
  by pat_completeness auto
termination
  by (relation "measure length") (auto simp: chunk_size_def)

declare split_chunks.simps [simp del]

definition frame :: "bytes \<Rightarrow> bytes" where
  "frame c = fmt_04x (length c + 5) @ [1] @ c"

section \<open>The pack layout of the specification\<close>







text \<open>An instance of the library parameters, for the closed instances of the theorems.\<close>

definition sample_lib :: lib where
  "sample_lib = \<lparr>sha1 = (\<lambda>bs. of_nat (length bs)), zlib_compress = (\<lambda>bs. bs)\<rparr>"

section \<open>The tree payload of the specification\<close>

text \<open>
  The payload in the specification's words: per entry the mode \<^verbatim>\<open>100644\<close>, a space, the
  path, a null byte and the raw identity bytes. An entry is well formed when its path can
  be encoded and its identity is 40 hexadecimal digits.
\<close>

definition the_bytes :: "exn + bytes \<Rightarrow> bytes" where
  "the_bytes r = (case r of Inl e \<Rightarrow> [] | Inr bs \<Rightarrow> bs)"

definition is_identity :: "pystr \<Rightarrow> bool" where
  "is_identity h = (length h = 40 \<and> list_all (\<lambda>c. hexval c \<noteq> None) h)"

definition tree_entry_ok :: "pystr \<times> pystr \<times> bytes \<Rightarrow> bool" where
  "tree_entry_ok entry =
     (case entry of (path, identity, payload) \<Rightarrow>
        (case encode_utf8 path of Inl e \<Rightarrow> False | Inr p \<Rightarrow> True) \<and> is_identity identity)"

definition spec_tree_entry :: "pystr \<times> pystr \<times> bytes \<Rightarrow> bytes" where
  "spec_tree_entry entry =
     (case entry of (path, identity, payload) \<Rightarrow>
        ascii ''100644 '' @ the_bytes (encode_utf8 path) @ [0] @ the_bytes (fromhex identity))"

definition spec_tree_payload :: "(pystr \<times> pystr \<times> bytes) list \<Rightarrow> bytes" where
  "spec_tree_payload entries = concat (map spec_tree_entry entries)"

section \<open>Well-formed synthesis output\<close>





section \<open>Sample inputs\<close>

text \<open>
  Two worlds for the closed instances: one whose synthesis produces the single file
  \<^verbatim>\<open>hello.txt\<close> containing \<^verbatim>\<open>hi\<close> and a newline, and one whose source text defines no
  \<^verbatim>\<open>MyStack\<close>; and three request bodies: two with one want line each, one with a flush
  packet only.
\<close>

definition hello_world :: world where
  "hello_world =
     \<lparr>main_py_exists = True,
      main_py_read = Inr (ustr ''class MyStack(TerraformStack): pass''),
      temp_dir = [ustr ''tmp'', ustr ''tmpk3v9x2ab''],
      cdktf = (\<lambda>code. Synthesized),
      os_walk = (\<lambda>dir. [(ustr ''hello.txt'', Inr (ustr ''hi\<newline>''))]),
      rmtree_fails = False\<rparr>"

definition no_stack_world :: world where
  "no_stack_world =
     \<lparr>main_py_exists = True,
      main_py_read = Inr (ustr ''x = 1''),
      temp_dir = [ustr ''tmp'', ustr ''tmpk3v9x2ab''],
      cdktf = (\<lambda>code. NoMyStack),
      os_walk = (\<lambda>dir. []),
      rmtree_fails = False\<rparr>"

definition sample_request :: bytes where
  "sample_request =
     ascii ''0032want 0123456789abcdef0123456789abcdef01234567\<newline>00000009done\<newline>''"




section \<open>Reading an entry header back\<close>



section \<open>Facts about slicing and hexadecimal formatting\<close>

lemma py_slice_nat:
  "py_slice xs (int i) (int i + int n) = take n (drop i xs)"
  by (auto simp: py_slice_def clamp_index_def Let_def min_def nat_add_distrib)

lemma fmt_04x_four:
  assumes "n < 65536"
  shows "fmt_04x n =
    [hexdigit (n div 4096), hexdigit (n div 256 mod 16),
     hexdigit (n div 16 mod 16), hexdigit (n mod 16)]"
proof -
  consider "n < 16" | "16 \<le> n" "n < 256" | "256 \<le> n" "n < 4096" | "4096 \<le> n"
    by linarith
  then show ?thesis
  proof cases
    case 1
    then show ?thesis
      by (simp add: fmt_04x_def hex_digits.simps [of n] hexdigit_def numeral_3_eq_3)
  next
    case 2
    then have "n div 16 < 16" "n div 256 = 0" "n div 4096 = 0" by auto
    with 2 show ?thesis
      by (simp add: fmt_04x_def hex_digits.simps [of n] hex_digits.simps [of "n div 16"]
          hexdigit_def numeral_2_eq_2)
  next
    case 3
    then have a: "\<not> n div 16 < 16" "n div 16 div 16 < 16" "n div 4096 = 0" by auto
    have b: "n div 16 div 16 = n div 256" "n div 16 mod 16 = n div 16 mod 16"
      by (simp_all add: div_mult2_eq [symmetric])
    from 3 a b show ?thesis
      by (simp add: fmt_04x_def hex_digits.simps [of n] hex_digits.simps [of "n div 16"]
          hex_digits.simps [of "n div 256"] hexdigit_def)
  next
    case 4
    with assms have a: "\<not> n < 16" "\<not> n div 16 < 16" "\<not> n div 16 div 16 < 16"
      "n div 16 div 16 div 16 < 16" by auto
    have b: "n div 16 div 16 = n div 256" "n div 256 div 16 = n div 4096"
      by (simp_all add: div_mult2_eq [symmetric])
    have c: "n div 4096 < 16" using assms by auto
    from a b c show ?thesis
      by (simp add: fmt_04x_def hex_digits.simps [of n] hex_digits.simps [of "n div 16"]
          hex_digits.simps [of "n div 256"] hex_digits.simps [of "n div 4096"])
  qed
qed

lemma side_band_loop_single:
  assumes "0 < length data" "length data \<le> chunk_size"
  shows "side_band_loop data 1 0 [] = Inr (fmt_04x (length data + 5) @ [1] @ data)"
proof -
  have "side_band_loop data 1 chunk_size (fmt_04x (length data + 5) @ [1] @ data)
      = Inr (fmt_04x (length data + 5) @ [1] @ data)"
    using assms by (subst side_band_loop.simps) simp
  moreover have "py_slice data (int 0) (int 0 + int chunk_size) = data"
    using assms by (simp only: py_slice_nat) simp
  ultimately show ?thesis
    using assms by (subst side_band_loop.simps) (simp add: Let_def)
qed

lemma hex_recompose: "4096 * (n div 4096) + 256 * (n div 256 mod 16) + 16 * (n div 16 mod 16) + n mod 16 = (n::nat)"
proof -
  define a where "a = n div 16"
  define b where "b = a div 16"
  define c where "c = b div 16"
  have e: "n div 256 = b" "n div 4096 = c" "n div 16 = a"
    by (simp_all add: a_def b_def c_def div_mult2_eq [symmetric])
  have "n = 16 * a + n mod 16" unfolding a_def by simp
  moreover have "a = 16 * b + a mod 16" unfolding b_def by simp
  moreover have "b = 16 * c + b mod 16" unfolding c_def by simp
  ultimately have "n = 4096 * c + 256 * (b mod 16) + 16 * (a mod 16) + n mod 16"
    by linarith
  then show ?thesis unfolding e by simp
qed

lemma lower_hexval_hexdigit:
  assumes "d < 16"
  shows "lower_hexval (hexdigit d) = Some d"
proof -
  from assms have "d = 0 \<or> d = 1 \<or> d = 2 \<or> d = 3 \<or> d = 4 \<or> d = 5 \<or> d = 6 \<or> d = 7
      \<or> d = 8 \<or> d = 9 \<or> d = 10 \<or> d = 11 \<or> d = 12 \<or> d = 13 \<or> d = 14 \<or> d = 15"
    by arith
  then show ?thesis
    by (elim disjE) (simp_all add: lower_hexval_def hexdigit_def)
qed

lemma hex4_value_fmt: 
  assumes "n < 65536" shows "hex4_value (fmt_04x n) = Some n"
proof -
  have a: "n div 4096 < 16" using assms by auto
  have "4096 * (n div 4096) + 256 * (n div 256 mod 16) + 16 * (n div 16 mod 16) + n mod 16 = n"
    by (rule hex_recompose)
  with a show ?thesis
    by (simp add: fmt_04x_four [OF assms] hex4_value_def lower_hexval_hexdigit)
qed

lemma side_band_loop_frames:
  "side_band_loop data 1 i acc = Inr (acc @ concat (map frame (split_chunks (drop i data))))"
proof (induction data "1::int" i acc rule: side_band_loop.induct)
  case (1 data i result)
  show ?case
  proof (cases "i < length data")
    case True
    then have ne: "drop i data \<noteq> []" by simp
    have sl: "py_slice data (int i) (int i + int chunk_size) = take chunk_size (drop i data)"
      by (rule py_slice_nat)
    have dd: "chunk_size + i = i + chunk_size"
      by simp
    from True "1.hyps" [OF True refl refl refl] 
    have IH: "side_band_loop data 1 (i + chunk_size)
        ((result @ fmt_04x (length (take chunk_size (drop i data)) + 5)) @ [of_int 1] @ take chunk_size (drop i data))
      = Inr (((result @ fmt_04x (length (take chunk_size (drop i data)) + 5)) @ [of_int 1] @ take chunk_size (drop i data))
           @ concat (map frame (split_chunks (drop (i + chunk_size) data))))"
      by (simp add: sl)
    show ?thesis
      apply (subst side_band_loop.simps)
      apply (subst split_chunks.simps)
      using True ne IH
      apply (simp add: Let_def sl dd frame_def)
      done
  next
    case False
    then show ?thesis
      by (subst side_band_loop.simps, subst split_chunks.simps) simp
  qed
qed

lemma concat_split_chunks: "concat (split_chunks xs) = xs"
  by (induction xs rule: split_chunks.induct) (subst split_chunks.simps, simp)

lemma split_chunks_bounds:
  "c \<in> set (split_chunks xs) \<Longrightarrow> 0 < length c \<and> length c \<le> chunk_size"
proof (induction xs rule: split_chunks.induct)
  case (1 xs)
  show ?case
  proof (cases "xs = []")
    case True
    with "1.prems" show ?thesis by (subst (asm) split_chunks.simps) simp
  next
    case False
    from "1.prems" have "c = take chunk_size xs \<or> c \<in> set (split_chunks (drop chunk_size xs))"
      using False by (subst (asm) split_chunks.simps) simp
    then show ?thesis
      using "1.IH" [OF False] False by (auto simp: chunk_size_def)
  qed
qed

lemma spec_pkt_decode_flush: "spec_pkt_decode (ascii ''0000'') = [Flush]"
  by (subst spec_pkt_decode.simps, subst spec_pkt_decode.simps) (simp add: ascii_def hex4_value_def lower_hexval_def)

lemma length_fmt_04x: "n < 65536 \<Longrightarrow> length (fmt_04x n) = 4"
  by (simp add: fmt_04x_four)

lemma spec_pkt_decode_frame:
  assumes "0 < length c" "length c \<le> chunk_size"
  shows "spec_pkt_decode (frame c @ rest) = Data (1 # c) # spec_pkt_decode rest"
proof -
  have n: "length c + 5 < 65536" using assms by (simp add: chunk_size_def)
  have t: "take 4 (frame c @ rest) = fmt_04x (length c + 5)"
    using length_fmt_04x [OF n] by (simp add: frame_def)
  have d4: "drop 4 (frame c @ rest) = [1] @ c @ rest"
    using length_fmt_04x [OF n] by (simp add: frame_def)
  have lf: "length (frame c) = length c + 5"
    using length_fmt_04x [OF n] by (simp add: frame_def)
  show ?thesis
    apply (subst spec_pkt_decode.simps)
    apply (simp only: t d4 hex4_value_fmt [OF n] option.case)
    apply (simp add: lf)
    done
qed

lemma spec_pkt_decode_frames:
  assumes "\<And>c. c \<in> set cs \<Longrightarrow> 0 < length c \<and> length c \<le> chunk_size"
  shows "spec_pkt_decode (concat (map frame cs) @ ascii ''0000'') = map (\<lambda>c. Data (1 # c)) cs @ [Flush]"
  using assms by (induction cs) (simp_all add: spec_pkt_decode_flush spec_pkt_decode_frame)


section \<open>Facts about the pack encoder\<close>













section \<open>Facts about the object builder\<close>

lemma hexval_not_space: "hexval c \<noteq> None \<Longrightarrow> \<not> is_space c"
  by (auto simp: hexval_def is_space_def split: if_splits)

lemma fromhex_hex_digits:
  "list_all (\<lambda>c. hexval c \<noteq> None) h \<Longrightarrow> even (length h) \<Longrightarrow>
   \<exists>bs. fromhex h = Inr bs \<and> 2 * length bs = length h"
proof (induction h rule: fromhex.induct)
  case 1
  then show ?case by simp
next
  case (2 c)
  then show ?case by simp
next
  case (3 c d ds)
  then obtain bs where "fromhex ds = Inr bs" "2 * length bs = length ds"
    by (auto simp: hexval_not_space)
  with "3.prems" show ?case
    by (auto simp: hexval_not_space)
qed

lemma fromhex_identity:
  assumes "is_identity h"
  shows "\<exists>bs. fromhex h = Inr bs \<and> length bs = 20"
proof -
  from assms have "list_all (\<lambda>c. hexval c \<noteq> None) h" "even (length h)" "length h = 40"
    by (simp_all add: is_identity_def)
  from fromhex_hex_digits [OF this(1,2)] this(3) show ?thesis by auto
qed

lemma tree_loop_spec:
  "list_all tree_entry_ok entries \<Longrightarrow>
   tree_loop entries acc = Inr (acc @ spec_tree_payload entries)"
proof (induction entries arbitrary: acc)
  case Nil
  then show ?case by (simp add: spec_tree_payload_def)
next
  case (Cons e entries)
  obtain path h b where e: "e = (path, h, b)" by (cases e)
  from Cons.prems e obtain p where p: "encode_utf8 path = Inr p"
    by (auto simp: tree_entry_ok_def split: sum.splits)
  from Cons.prems e obtain raw where raw: "fromhex h = Inr raw"
    using fromhex_identity [of h] by (auto simp: tree_entry_ok_def)
  from Cons.prems have "list_all tree_entry_ok entries" by simp
  from Cons.IH [OF this] show ?case
    by (simp add: e p raw spec_tree_payload_def spec_tree_entry_def the_bytes_def ascii_def)
qed

lemma sort_key_permutation:
  assumes "distinct (map fst xs)" "mset ys = mset xs"
  shows "sort_key fst ys = sort_key fst xs"
proof -
  from assms(1) have "inj_on fst (set xs)" by (simp add: distinct_map)
  with assms(2) show ?thesis
    by (metis sort_key_eq_sort_key mset_eq_setD)
qed

lemma strictly_sorted_keys:
  assumes "distinct (map fst xs)"
  shows "sorted_wrt (<) (map fst (sort_key fst xs))"
proof -
  have "mset (map fst (sort_key fst xs)) = mset (map fst xs)" by simp
  with assms have "distinct (map fst (sort_key fst xs))"
    by (metis mset_eq_imp_distinct_iff)
  moreover have "sorted (map fst (sort_key fst xs))" by simp
  ultimately show ?thesis by (simp add: strict_sorted_iff)
qed

section \<open>Facts about the fetch flow\<close>


lemma hexchar_props: "d < 16 \<Longrightarrow> hexchar d < 128 \<and> hexval (hexchar d) = Some d"
  by (auto simp: hexchar_def hexval_def)




lemma fromhex_hex_of_bytes: "fromhex (hex_of_bytes bs) = Inr bs"
proof (induction bs)
  case Nil
  then show ?case by (simp add: hex_of_bytes_def)
next
  case (Cons b bs)
  have hi: "unat b div 16 < 16"
    using unsigned_less [of b, where 'a = nat] by simp
  have lo: "unat b mod 16 < 16" by simp
  have sp: "\<not> is_space (hexchar (unat b div 16))"
    using hexchar_props [OF hi] by (simp add: hexval_not_space)
  have "(of_nat (16 * (unat b div 16) + unat b mod 16) :: byte) = b"
    by simp
  with Cons sp hexchar_props [OF hi] hexchar_props [OF lo] show ?case
    by (simp add: hex_of_bytes_def)
qed










section \<open>Facts about the sample inputs and the file system\<close>






lemma parse_sample_request:
  "parse_request sample_request = Some [ustr ''0123456789abcdef0123456789abcdef01234567'']"
  by code_simp




lemma cleanup_hello:
  "cleanup hello_world (Some (temp_dir hello_world @ [ustr ''cdktf.out'']))
     ((temp_dir hello_world @ [ustr ''cdktf.out'']) # temp_dir hello_world # [])
   = [temp_dir hello_world]"
  by (simp add: cleanup_def rmtree_def below_def hello_world_def)


lemma get_refs_fs:
  "main_py_read W = Inr cdktf_code \<Longrightarrow>
   snd (get_refs L W fs) = (case synthesize W cdktf_code fs of (dir, fs1) \<Rightarrow> cleanup W dir fs1)"
  by (auto simp: get_refs_def refs_try_def split: prod.splits option.splits sum.splits)

lemma generate_pack_fs:
  "parse_request request_data = Some wants \<Longrightarrow> wants \<noteq> [] \<Longrightarrow>
   main_py_exists W \<Longrightarrow> main_py_read W = Inr cdktf_code \<Longrightarrow>
   map_option snd (generate_pack L W fs request_data)
     = Some (case synthesize W cdktf_code fs of (dir, fs1) \<Rightarrow> cleanup W dir fs1)"
  by (auto simp: generate_pack_def pack_try_def Let_def split: prod.splits option.splits sum.splits)

lemma refs_advertisement_zero:
  "refs_advertisement zero_hash =
     Inr (ascii ''001e# service=git-upload-pack\<newline>'' @ ascii ''0000''
          @ ascii ''00f0'' @ ascii (replicate 40 CHR ''0'') @ ascii '' HEAD'' @ [0]
          @ map of_nat capabilities @ ascii ''\<newline>''
          @ ascii ''003d'' @ ascii (replicate 40 CHR ''0'') @ ascii '' refs/heads/main\<newline>''
          @ ascii ''0000'')"
  by code_simp

section \<open>Facts about reading entry headers\<close>






section \<open>Claims about the side-band multiplexer\<close>

text \<open>
  C6. \<^verbatim>\<open>format_side_band\<close> is meant to keep every packet-line within 65520 bytes.
  On an input of 65519 bytes the single packet-line it emits carries the length field
  \<^verbatim>\<open>fff4\<close> and is 65524 bytes long: the chunk size accounts for the band byte but not
  for the four bytes of the length field.
\<close>

theorem C6_packet_line_exceeds_limit:
  "format_side_band (replicate 65519 0) 1 =
     Inr ((ascii ''fff4'' @ [1] @ replicate 65519 0) @ ascii ''0000'')
   \<and> length (ascii ''fff4'' @ [1] @ replicate 65519 (0::byte)) = 65524
   \<and> \<not> length (ascii ''fff4'' @ [1] @ replicate 65519 (0::byte)) \<le> 65520"
proof -
  have "side_band_loop (replicate 65519 0) 1 0 []
      = Inr (fmt_04x (length (replicate 65519 (0::byte)) + 5) @ [1] @ replicate 65519 0)"
    by (rule side_band_loop_single) (simp_all add: chunk_size_def)
  moreover have "fmt_04x 65524 = ascii ''fff4''"
    by (simp add: fmt_04x_four hexdigit_def ascii_def)
  ultimately show ?thesis
    by (simp add: format_side_band_def ascii_def)
qed

text \<open>
  C5. For every input, \<^verbatim>\<open>format_side_band\<close> (band 1) returns a stream that decodes to
  band-1 data packets followed by one final flush packet, and the bodies of the non-flush
  packets, each without its band byte, concatenate to the input.
\<close>

theorem C5_side_band_inverse:
  "(case format_side_band data 1 of
      Inl e \<Rightarrow> False
    | Inr out \<Rightarrow>
        (let pkts = spec_pkt_decode out
         in pkts \<noteq> [] \<and> last pkts = Flush
            \<and> list_all on_band1 (butlast pkts)
            \<and> concat (map band_body (filter (\<lambda>p. p \<noteq> Flush) pkts)) = data))"
proof -
  define cs where "cs = split_chunks data"
  have out: "format_side_band data 1 = Inr (concat (map frame cs) @ ascii ''0000'')"
    by (simp add: format_side_band_def side_band_loop_frames cs_def)
  have dec: "spec_pkt_decode (concat (map frame cs) @ ascii ''0000'')
      = map (\<lambda>c. Data (1 # c)) cs @ [Flush]"
    by (rule spec_pkt_decode_frames) (use split_chunks_bounds cs_def in blast)
  have bodies: "concat (map band_body (map (\<lambda>c. Data (1 # c)) cs)) = concat cs"
    by (induction cs) (simp_all add: band_body_def)
  have tagged: "list_all on_band1 (map (\<lambda>c. Data (1 # c)) cs)"
    by (induction cs) (simp_all add: on_band1_def)
  have nonflush: "filter (\<lambda>p. p \<noteq> Flush) (map (\<lambda>c. Data (1 # c)) cs)
      = map (\<lambda>c. Data (1 # c)) cs"
    by (induction cs) simp_all
  have whole: "concat cs = data"
    by (simp add: cs_def concat_split_chunks)
  from tagged bodies whole show ?thesis
    by (simp add: out dec Let_def nonflush)
qed

section \<open>Claims about the request parser\<close>

lemma parse_step_cycle_0: "parse_step (ascii ''0004-004'') 0 [] = Continue 4 []"
  by code_simp

lemma parse_step_cycle_4: "parse_step (ascii ''0004-004'') 4 [] = Continue 0 []"
  by code_simp

lemma length_cycle_request: "length (ascii ''0004-004'') = 8"
  by (simp add: ascii_def)

lemma parse_loop_cycle:
  assumes "parse_loop data pos wants = Some y"
  shows "\<not> (data = ascii ''0004-004'' \<and> (pos = 0 \<or> pos = 4) \<and> wants = [])"
proof (rule parse_loop.raw_induct [rotated 1, OF assms])
  fix f :: "bytes \<Rightarrow> int \<Rightarrow> pystr list \<Rightarrow> pystr list option" and data pos wants y
  assume IH: "\<And>d p w r. f d p w = Some r \<Longrightarrow>
      \<not> (d = ascii ''0004-004'' \<and> (p = 0 \<or> p = 4) \<and> w = [])"
  assume unf: "(if pos < int (length data)
       then case parse_step data pos wants of Break \<Rightarrow> Some wants
            | Continue pos1 wants1 \<Rightarrow> f data pos1 wants1
       else Some wants) = Some y"
  show "\<not> (data = ascii ''0004-004'' \<and> (pos = 0 \<or> pos = 4) \<and> wants = [])"
  proof
    assume a: "data = ascii ''0004-004'' \<and> (pos = 0 \<or> pos = 4) \<and> wants = []"
    then consider "pos = 0" | "pos = 4" by blast
    then show False
    proof cases
      case 1
      with a unf have "f (ascii ''0004-004'') 4 [] = Some y"
        by (simp add: parse_step_cycle_0 length_cycle_request)
      with IH show False by blast
    next
      case 2
      with a unf have "f (ascii ''0004-004'') 0 [] = Some y"
        by (simp add: parse_step_cycle_4 length_cycle_request)
      with IH show False by blast
    qed
  qed
qed

text \<open>
  C7. \<^verbatim>\<open>parse_request\<close> is meant to return on every input. On the request body
  \<^verbatim>\<open>0004-004\<close> it does not return: the length field \<^verbatim>\<open>0004\<close> moves the position from 0
  to 4, the field \<^verbatim>\<open>-004\<close> parses as the integer -4 and moves it back to 0, with no want
  appended on the way, so the loop repeats for ever.
\<close>

theorem C7_parse_request_does_not_return: "parse_request (ascii ''0004-004'') = None"
proof (cases "parse_request (ascii ''0004-004'')")
  case None
  then show ?thesis .
next
  case (Some y)
  then show ?thesis
    using parse_loop_cycle [of "ascii ''0004-004''" 0 "[]" y]
    by (simp add: parse_request_def)
qed

section \<open>Claims about the pack encoder\<close>




section \<open>Claims about the object builder\<close>

text \<open>
  C3, as the code has it. For every list of entries with pairwise distinct paths and every
  permutation of it, \<^verbatim>\<open>create_tree\<close> returns the same result, and the sorted paths are
  strictly ascending. When moreover every path can be encoded and every identity is 40
  hexadecimal digits, the result is the pair of identity and store whose payload is the
  concatenation, in ascending path order, of \<^verbatim>\<open>100644 <path>\<close>, a null byte and the 20 raw identity
  bytes of each entry.
\<close>

theorem C3_create_tree_canonical:
  assumes "distinct (map fst objects)" and "mset objects' = mset objects"
  shows "create_tree L objects' = create_tree L objects
    \<and> sorted_wrt (<) (map fst (sort_key fst objects))
    \<and> (list_all tree_entry_ok objects \<longrightarrow>
         (let payload = spec_tree_payload (sort_key fst objects);
              store = ascii ''tree '' @ decimal (length payload) @ [0] @ payload
          in create_tree L objects = Inr (hexdigest (sha1 L store), store)
             \<and> list_all (\<lambda>entry. length (the_bytes (fromhex (fst (snd entry)))) = 20) objects))"
proof -
  have same: "create_tree L objects' = create_tree L objects"
    by (simp add: create_tree_def sort_key_permutation [OF assms])
  have ok: "create_tree L objects =
      Inr (hexdigest (sha1 L (ascii ''tree '' @ decimal (length (spec_tree_payload (sort_key fst objects))) @ [0] @ spec_tree_payload (sort_key fst objects))),
           ascii ''tree '' @ decimal (length (spec_tree_payload (sort_key fst objects))) @ [0] @ spec_tree_payload (sort_key fst objects))"
    if "list_all tree_entry_ok objects"
  proof -
    from that have "list_all tree_entry_ok (sort_key fst objects)"
      by (simp add: list_all_iff)
    then show ?thesis
      by (simp add: create_tree_def tree_loop_spec Let_def)
  qed
  have raw: "list_all (\<lambda>entry. length (the_bytes (fromhex (fst (snd entry)))) = 20) objects"
    if "list_all tree_entry_ok objects"
    using that
    by (induction objects) (auto simp: tree_entry_ok_def the_bytes_def dest: fromhex_identity)
  from same strictly_sorted_keys [OF assms(1)] ok raw show ?thesis
    by (simp add: Let_def)
qed


text \<open>An instance of C3: the entries \<^verbatim>\<open>b.txt\<close> and \<^verbatim>\<open>a.txt\<close> in both orders.\<close>

theorem C3_create_tree_canonical_witness:
  "distinct (map fst [(ustr ''b.txt'', zero_hash, []::bytes), (ustr ''a.txt'', zero_hash, [])])
   \<and> mset [(ustr ''a.txt'', zero_hash, []), (ustr ''b.txt'', zero_hash, []::bytes)]
       = mset [(ustr ''b.txt'', zero_hash, []::bytes), (ustr ''a.txt'', zero_hash, [])]
   \<and> list_all tree_entry_ok [(ustr ''b.txt'', zero_hash, []::bytes), (ustr ''a.txt'', zero_hash, [])]
   \<and> create_tree sample_lib [(ustr ''a.txt'', zero_hash, []), (ustr ''b.txt'', zero_hash, []::bytes)]
       = create_tree sample_lib [(ustr ''b.txt'', zero_hash, []::bytes), (ustr ''a.txt'', zero_hash, [])]
   \<and> sorted_wrt (<)
        (map fst (sort_key fst [(ustr ''b.txt'', zero_hash, []::bytes), (ustr ''a.txt'', zero_hash, [])]))
   \<and> (case create_tree sample_lib [(ustr ''b.txt'', zero_hash, []::bytes), (ustr ''a.txt'', zero_hash, [])]
        of Inl e \<Rightarrow> False | Inr tree \<Rightarrow> True)"
proof -
  have d: "distinct (map fst [(ustr ''b.txt'', zero_hash, []::bytes), (ustr ''a.txt'', zero_hash, [])])"
    by (simp add: ustr_def)
  have m: "mset [(ustr ''a.txt'', zero_hash, []), (ustr ''b.txt'', zero_hash, []::bytes)]
       = mset [(ustr ''b.txt'', zero_hash, []::bytes), (ustr ''a.txt'', zero_hash, [])]"
    by simp
  have ok: "list_all tree_entry_ok [(ustr ''b.txt'', zero_hash, []::bytes), (ustr ''a.txt'', zero_hash, [])]"
    by code_simp
  from C3_create_tree_canonical [OF d m, of sample_lib] d m ok show ?thesis
    by (simp add: Let_def)
qed

text \<open>
  C3 as stated ("for every list and every permutation") fails when two entries share a
  path: the sort is stable, so the two orders of the input give two different payloads.
\<close>

theorem C3_duplicate_paths:
  "mset [(ustr ''a'', replicate 40 49, []::bytes), (ustr ''a'', replicate 40 48, [])]
     = mset [(ustr ''a'', replicate 40 48, []), (ustr ''a'', replicate 40 49, []::bytes)]
   \<and> create_tree sample_lib [(ustr ''a'', replicate 40 49, []::bytes), (ustr ''a'', replicate 40 48, [])]
     \<noteq> create_tree sample_lib [(ustr ''a'', replicate 40 48, []), (ustr ''a'', replicate 40 49, []::bytes)]"
proof -
  have "tree_loop [(ustr ''a'', replicate 40 49, []::bytes), (ustr ''a'', replicate 40 48, [])] []
     \<noteq> tree_loop [(ustr ''a'', replicate 40 48, []), (ustr ''a'', replicate 40 49, []::bytes)] []"
    by code_simp
  moreover have "sort_key fst [(ustr ''a'', replicate 40 49, []::bytes), (ustr ''a'', replicate 40 48, [])]
      = [(ustr ''a'', replicate 40 49, []::bytes), (ustr ''a'', replicate 40 48, [])]"
    by simp
  moreover have "sort_key fst [(ustr ''a'', replicate 40 48, []), (ustr ''a'', replicate 40 49, []::bytes)]
      = [(ustr ''a'', replicate 40 48, []), (ustr ''a'', replicate 40 49, []::bytes)]"
    by simp
  ultimately show ?thesis
    by (auto simp: create_tree_def Let_def split: sum.splits)
qed

section \<open>Claims about the fetch and advertisement flows\<close>







text \<open>
  C8. The scratch directory is meant to be deleted on every exit path. When the source
  text defines no \<^verbatim>\<open>MyStack\<close>, \<^verbatim>\<open>synthesize\<close> returns \<^verbatim>\<open>None\<close> without removing the
  directory \<^verbatim>\<open>mkdtemp\<close> created, and neither flow removes it; when the synthesis
  succeeds, both flows remove the output directory \<^verbatim>\<open>cdktf.out\<close> only, and the directory
  \<^verbatim>\<open>mkdtemp\<close> created still exists when they return.
\<close>

theorem C8_scratch_directory_remains:
  "snd (get_refs sample_lib no_stack_world []) = [temp_dir no_stack_world]
   \<and> map_option snd (generate_pack sample_lib no_stack_world [] sample_request)
       = Some [temp_dir no_stack_world]
   \<and> snd (get_refs sample_lib hello_world []) = [temp_dir hello_world]
   \<and> map_option snd (generate_pack sample_lib hello_world [] sample_request)
       = Some [temp_dir hello_world]"
proof -
  have w: "[ustr ''0123456789abcdef0123456789abcdef01234567''] \<noteq> []" by simp
  have n: "main_py_exists no_stack_world" "main_py_read no_stack_world = Inr (ustr ''x = 1'')"
    by (simp_all add: no_stack_world_def)
  have h: "main_py_exists hello_world"
    "main_py_read hello_world = Inr (ustr ''class MyStack(TerraformStack): pass'')"
    by (simp_all add: hello_world_def)
  have sn: "synthesize no_stack_world (ustr ''x = 1'') [] = (None, [temp_dir no_stack_world])"
    by (simp add: synthesize_def no_stack_world_def)
  have sh: "synthesize hello_world (ustr ''class MyStack(TerraformStack): pass'') []
      = (Some (temp_dir hello_world @ [ustr ''cdktf.out'']),
         [temp_dir hello_world @ [ustr ''cdktf.out''], temp_dir hello_world])"
    by (simp add: synthesize_def hello_world_def Let_def)
  show ?thesis
    using get_refs_fs [OF n(2), of sample_lib "[]"] get_refs_fs [OF h(2), of sample_lib "[]"]
      generate_pack_fs [OF parse_sample_request w n, of sample_lib "[]"]
      generate_pack_fs [OF parse_sample_request w h, of sample_lib "[]"]
    by (simp add: sn sh cleanup_hello) (simp add: cleanup_def)
qed

text \<open>
  C9. When reading the project source raises, or the synthesis collaborator returns no
  output, or reading a file or building an object raises, or no file is found,
  \<^verbatim>\<open>get_refs\<close> returns the complete advertisement in which the \<^verbatim>\<open>HEAD\<close> line and the
  \<^verbatim>\<open>refs/heads/main\<close> line carry the identity of 40 zero characters.
\<close>

theorem C9_zero_identity_advertised:
  assumes "main_py_read W = Inl e0
     \<or> (main_py_read W = Inr cdktf_code \<and> fst (synthesize W cdktf_code fs) = None)
     \<or> (main_py_read W = Inr cdktf_code \<and> fst (synthesize W cdktf_code fs) = Some dir
          \<and> build_objects L (os_walk W dir) [] = Inl e1)
     \<or> (main_py_read W = Inr cdktf_code \<and> fst (synthesize W cdktf_code fs) = Some dir
          \<and> build_objects L (os_walk W dir) [] = Inr [])
     \<or> (main_py_read W = Inr cdktf_code \<and> fst (synthesize W cdktf_code fs) = Some dir
          \<and> build_objects L (os_walk W dir) [] = Inr objects \<and> create_tree L objects = Inl e2)"
  shows "fst (get_refs L W fs) =
     Inr (ascii ''001e# service=git-upload-pack\<newline>'' @ ascii ''0000''
          @ ascii ''00f0'' @ ascii (replicate 40 CHR ''0'') @ ascii '' HEAD'' @ [0]
          @ map of_nat capabilities @ ascii ''\<newline>''
          @ ascii ''003d'' @ ascii (replicate 40 CHR ''0'') @ ascii '' refs/heads/main\<newline>''
          @ ascii ''0000'')"
proof -
  from assms have "fst (refs_try L W fs) = zero_hash"
    by (auto simp: refs_try_def split: prod.splits option.splits sum.splits)
  then obtain dir' fs1 where "refs_try L W fs = (zero_hash, dir', fs1)"
    by (cases "refs_try L W fs") simp
  then show ?thesis
    by (simp add: get_refs_def refs_advertisement_zero)
qed

text \<open>An instance of C9: the source text without \<^verbatim>\<open>MyStack\<close>.\<close>

theorem C9_zero_identity_advertised_witness:
  "main_py_read no_stack_world = Inr (ustr ''x = 1'')
   \<and> fst (synthesize no_stack_world (ustr ''x = 1'') []) = None
   \<and> fst (get_refs sample_lib no_stack_world []) =
     Inr (ascii ''001e# service=git-upload-pack\<newline>'' @ ascii ''0000''
          @ ascii ''00f0'' @ ascii (replicate 40 CHR ''0'') @ ascii '' HEAD'' @ [0]
          @ map of_nat capabilities @ ascii ''\<newline>''
          @ ascii ''003d'' @ ascii (replicate 40 CHR ''0'') @ ascii '' refs/heads/main\<newline>''
          @ ascii ''0000'')"
proof -
  have r: "main_py_read no_stack_world = Inr (ustr ''x = 1'')"
    by (simp add: no_stack_world_def)
  have s: "fst (synthesize no_stack_world (ustr ''x = 1'') []) = None"
    by (simp add: synthesize_def no_stack_world_def)
  from r s have "main_py_read no_stack_world = Inl OSError
     \<or> (main_py_read no_stack_world = Inr (ustr ''x = 1'')
         \<and> fst (synthesize no_stack_world (ustr ''x = 1'') []) = None)
     \<or> (main_py_read no_stack_world = Inr (ustr ''x = 1'')
         \<and> fst (synthesize no_stack_world (ustr ''x = 1'') []) = Some []
          \<and> build_objects sample_lib (os_walk no_stack_world []) [] = Inl OSError)
     \<or> (main_py_read no_stack_world = Inr (ustr ''x = 1'')
         \<and> fst (synthesize no_stack_world (ustr ''x = 1'') []) = Some []
          \<and> build_objects sample_lib (os_walk no_stack_world []) [] = Inr [])
     \<or> (main_py_read no_stack_world = Inr (ustr ''x = 1'')
         \<and> fst (synthesize no_stack_world (ustr ''x = 1'') []) = Some []
          \<and> build_objects sample_lib (os_walk no_stack_world []) [] = Inr []
          \<and> create_tree sample_lib [] = Inl OSError)"
    by blast
  from C9_zero_identity_advertised [OF this] r s show ?thesis by blast
qed

end
